theory Spec2Isabelle
  imports Main "HOL-Library.Word"
begin

section \<open>The AuditTrail contract: data model\<close>

text \<open>
  Source: \<^verbatim>\<open>smart-contracts/contracts/AuditTrail.sol\<close>.
  An \<^verbatim>\<open>address\<close> is a 160-bit word, \<^verbatim>\<open>uint256\<close> and \<^verbatim>\<open>bytes32\<close> are 256-bit words,
  a Solidity \<^verbatim>\<open>string\<close> is its byte sequence (a HOL \<open>string\<close>, whose characters are bytes),
  so \<^verbatim>\<open>bytes(s).length\<close> is \<open>length s\<close>.
\<close>

type_synonym address = "160 word"
type_synonym uint256 = "256 word"
type_synonym bytes32 = "256 word"

record Transaction =
  tokenId :: string
  smeAddress :: address
  timestamp :: uint256
  transactionType :: string
  amount :: uint256
  dataHash :: bytes32
  ipfsHash :: string
  isVerified :: bool

text \<open>The zero-initialised struct that \<^verbatim>\<open>Transaction memory emptyTx;\<close> declares.\<close>

definition emptyTx :: Transaction where
  "emptyTx = \<lparr>tokenId = [], smeAddress = 0, timestamp = 0, transactionType = [],
     amount = 0, dataHash = 0, ipfsHash = [], isVerified = False\<rparr>"

text \<open>
  The storage of the contract. A Solidity mapping is total: a key never written reads as
  the zero value, so each mapping is a total function. The fields \<open>owner\<close>, \<open>paused\<close> and
  \<open>entered\<close> are the storage of the inherited Ownable, Pausable and ReentrancyGuard
  (\<open>entered\<close> is \<^verbatim>\<open>_status == _ENTERED\<close>).
\<close>

record AuditTrail =
  owner :: address
  paused :: bool
  entered :: bool
  auditTrails :: "address \<Rightarrow> Transaction list"
  tokenExists :: "string \<Rightarrow> bool"
  authorizedSMEs :: "address \<Rightarrow> bool"
  tokenToSME :: "string \<Rightarrow> address"
  transactionCounts :: "address \<Rightarrow> uint256"
  totalTransactions :: uint256

text \<open>Every revert reason of the contract, one constructor per \<^verbatim>\<open>require\<close> message.\<close>

datatype error =
    NotOwner                  \<comment> \<open>"Ownable: caller is not the owner"\<close>
  | NewOwnerZero              \<comment> \<open>"Ownable: new owner is the zero address"\<close>
  | ContractPaused            \<comment> \<open>"Pausable: paused"\<close>
  | ContractNotPaused         \<comment> \<open>"Pausable: not paused"\<close>
  | ReentrantCall             \<comment> \<open>"ReentrancyGuard: reentrant call"\<close>
  | NotAuthorizedSME          \<comment> \<open>"AuditTrail: Not authorized SME"\<close>
  | TokenIdEmpty              \<comment> \<open>"AuditTrail: Token ID cannot be empty"\<close>
  | TokenIdTooLong            \<comment> \<open>"AuditTrail: Token ID too long"\<close>
  | AmountZero                \<comment> \<open>"AuditTrail: Amount must be greater than zero"\<close>
  | TokenAlreadyExists        \<comment> \<open>"AuditTrail: Token already exists"\<close>
  | InvalidDataHash           \<comment> \<open>"AuditTrail: Invalid data hash"\<close>
  | TransactionTypeRequired   \<comment> \<open>"AuditTrail: Transaction type required"\<close>
  | IpfsHashRequired          \<comment> \<open>"AuditTrail: IPFS hash required"\<close>
  | InvalidSMEAddress         \<comment> \<open>"AuditTrail: Invalid SME address"\<close>
  | InvalidExpectedHash       \<comment> \<open>"AuditTrail: Invalid expected hash"\<close>
  | ArraysLengthMismatch      \<comment> \<open>"AuditTrail: Arrays length mismatch"\<close>
  | EmptyArrays               \<comment> \<open>"AuditTrail: Empty arrays"\<close>
  | ArithmeticOverflow        \<comment> \<open>Panic(0x11) of checked arithmetic\<close>

datatype event =
    TransactionLogged string address uint256 bytes32 string uint256
  | SMEAuthorized address bool
  | Paused address
  | Unpaused address
  | OwnershipTransferred address address

section \<open>Execution model\<close>

text \<open>
  The code of a function runs on the storage and either reverts with a reason or returns a
  value; the storage it leaves behind is returned in both cases, so that writes made before
  a failing \<^verbatim>\<open>require\<close> are visible in the model.
\<close>

type_synonym 'r call = "AuditTrail \<Rightarrow> (error + 'r) \<times> AuditTrail"

text \<open>
  An external call is a transaction (or message call) of the EVM: when the code reverts,
  every storage write it made is undone and the events it emitted are dropped.
\<close>

definition external_call :: "'r call \<Rightarrow> 'r call" where
  "external_call f s = (case f s of (Inl e, _) \<Rightarrow> (Inl e, s) | (Inr r, s') \<Rightarrow> (Inr r, s'))"

text \<open>A \<^verbatim>\<open>view\<close> function is called for its answer only.\<close>

definition view_call :: "'r call \<Rightarrow> AuditTrail \<Rightarrow> error + 'r" where
  "view_call f s = fst (external_call f s)"

subsection \<open>Modifiers\<close>

text \<open>
  A modifier wraps the code that follows it in the function header; the modifiers of a
  function run in the order in which the header lists them.
\<close>

definition onlyAuthorizedSME :: "address \<Rightarrow> 'r call \<Rightarrow> 'r call" where
  "onlyAuthorizedSME sender body s =
     (if \<not> authorizedSMEs s sender then (Inl NotAuthorizedSME, s) else body s)"

definition validTokenId :: "string \<Rightarrow> 'r call \<Rightarrow> 'r call" where
  "validTokenId tid body s =
     (if \<not> length tid > 0 then (Inl TokenIdEmpty, s)
      else if \<not> length tid \<le> 64 then (Inl TokenIdTooLong, s)
      else body s)"

definition validAmount :: "uint256 \<Rightarrow> 'r call \<Rightarrow> 'r call" where
  "validAmount amt body s =
     (if \<not> amt > 0 then (Inl AmountZero, s) else body s)"

subsection \<open>Inherited library code\<close>

text \<open>
  The contract inherits Ownable, Pausable and ReentrancyGuard of the imported OpenZeppelin
  library, whose files are not part of the source tree. Their modifiers and internal
  functions are modelled below, with the revert reasons that the test suite of the
  repository expects ("Ownable: caller is not the owner", "Pausable: paused").
\<close>

text \<open>
  Modelled from the spec: the modifier \<^verbatim>\<open>onlyOwner\<close> of Ownable is missing from the source
  tree. The administrative operations are "callable only by the administrator identity".
\<close>

definition onlyOwner :: "address \<Rightarrow> 'r call \<Rightarrow> 'r call" where
  "onlyOwner sender body s =
     (if \<not> owner s = sender then (Inl NotOwner, s) else body s)"

text \<open>
  Modelled from the spec: the modifier \<^verbatim>\<open>whenNotPaused\<close> of Pausable is missing from the
  source tree. "While paused, append is rejected for all callers."
\<close>

definition whenNotPaused :: "'r call \<Rightarrow> 'r call" where
  "whenNotPaused body s =
     (if paused s then (Inl ContractPaused, s) else body s)"

text \<open>
  Modelled from the spec: the modifier \<^verbatim>\<open>whenPaused\<close> of Pausable is missing from the
  source tree; it is the guard of \<^verbatim>\<open>_unpause\<close>.
\<close>

definition whenPaused :: "'r call \<Rightarrow> 'r call" where
  "whenPaused body s =
     (if \<not> paused s then (Inl ContractNotPaused, s) else body s)"

text \<open>
  Modelled from the spec: the modifier \<^verbatim>\<open>nonReentrant\<close> of ReentrancyGuard is missing
  from the source tree. It rejects a call made while a guarded function is running, marks
  the guard as entered for the run of the body and clears the mark afterwards.
\<close>

definition nonReentrant :: "'r call \<Rightarrow> 'r call" where
  "nonReentrant body s =
     (if entered s then (Inl ReentrantCall, s)
      else (case body (s\<lparr>entered := True\<rparr>) of
              (Inl e, s') \<Rightarrow> (Inl e, s')
            | (Inr r, s') \<Rightarrow> (Inr r, s'\<lparr>entered := False\<rparr>)))"

text \<open>
  Modelled from the spec: the internal functions \<^verbatim>\<open>_pause\<close> and \<^verbatim>\<open>_unpause\<close> of
  Pausable are missing from the source tree. They set and clear the pause flag, guarded by
  \<^verbatim>\<open>whenNotPaused\<close> and \<^verbatim>\<open>whenPaused\<close>, and emit \<^verbatim>\<open>Paused\<close> and \<^verbatim>\<open>Unpaused\<close>.
\<close>

definition pause_internal :: "address \<Rightarrow> event list call" where
  "pause_internal sender =
     whenNotPaused (\<lambda>s. (Inr [Paused sender], s\<lparr>paused := True\<rparr>))"

definition unpause_internal :: "address \<Rightarrow> event list call" where
  "unpause_internal sender =
     whenPaused (\<lambda>s. (Inr [Unpaused sender], s\<lparr>paused := False\<rparr>))"

section \<open>The functions of the contract\<close>

text \<open>
  \<open>sender\<close> is \<^verbatim>\<open>msg.sender\<close> and \<open>now\<close> is \<^verbatim>\<open>block.timestamp\<close>. A function that emits
  events returns them, in order, with its value.
\<close>

definition constructor :: "address \<Rightarrow> AuditTrail" where
  "constructor sender =
     \<lparr>owner = sender, paused = False, entered = False,
      auditTrails = (\<lambda>_. []), tokenExists = (\<lambda>_. False),
      authorizedSMEs = (\<lambda>_. False)(sender := True),
      tokenToSME = (\<lambda>_. 0), transactionCounts = (\<lambda>_. 0), totalTransactions = 0\<rparr>"

definition authorizeSME_body :: "address \<Rightarrow> bool \<Rightarrow> event list call" where
  "authorizeSME_body sme status s =
     (if \<not> sme \<noteq> 0 then (Inl InvalidSMEAddress, s)
      else (Inr [SMEAuthorized sme status],
            s\<lparr>authorizedSMEs := (authorizedSMEs s)(sme := status)\<rparr>))"

definition authorizeSME :: "address \<Rightarrow> address \<Rightarrow> bool \<Rightarrow> event list call" where
  "authorizeSME sender sme status =
     external_call (onlyOwner sender (authorizeSME_body sme status))"

text \<open>
  The body of \<^verbatim>\<open>logTransaction\<close>: four \<^verbatim>\<open>require\<close>s, then the writes in the order of the
  source. The two increments are checked arithmetic (Solidity 0.8): each panics when the
  counter is \<open>2^256 - 1\<close>, after the writes that precede it.
\<close>

definition logTransaction_body ::
  "address \<Rightarrow> uint256 \<Rightarrow> string \<Rightarrow> string \<Rightarrow> uint256 \<Rightarrow> bytes32 \<Rightarrow> string
     \<Rightarrow> (bool \<times> event list) call" where
  "logTransaction_body sender now tid ttype amt dhash ipfs s =
     (if tokenExists s tid then (Inl TokenAlreadyExists, s)
      else if \<not> dhash \<noteq> 0 then (Inl InvalidDataHash, s)
      else if \<not> length ttype > 0 then (Inl TransactionTypeRequired, s)
      else if \<not> length ipfs > 0 then (Inl IpfsHashRequired, s)
      else
        let newTx = \<lparr>tokenId = tid, smeAddress = sender, timestamp = now,
                     transactionType = ttype, amount = amt, dataHash = dhash,
                     ipfsHash = ipfs, isVerified = True\<rparr>;
            s1 = s\<lparr>auditTrails := (auditTrails s)(sender := auditTrails s sender @ [newTx])\<rparr>;
            s2 = s1\<lparr>tokenExists := (tokenExists s1)(tid := True)\<rparr>;
            s3 = s2\<lparr>tokenToSME := (tokenToSME s2)(tid := sender)\<rparr>
        in if transactionCounts s3 sender = - 1 then (Inl ArithmeticOverflow, s3)
           else
             let s4 = s3\<lparr>transactionCounts :=
                          (transactionCounts s3)(sender := transactionCounts s3 sender + 1)\<rparr>
             in if totalTransactions s4 = - 1 then (Inl ArithmeticOverflow, s4)
                else
                  (Inr (True, [TransactionLogged tid sender now dhash ttype amt]),
                   s4\<lparr>totalTransactions := totalTransactions s4 + 1\<rparr>))"

definition logTransaction_code ::
  "address \<Rightarrow> uint256 \<Rightarrow> string \<Rightarrow> string \<Rightarrow> uint256 \<Rightarrow> bytes32 \<Rightarrow> string
     \<Rightarrow> (bool \<times> event list) call" where
  "logTransaction_code sender now tid ttype amt dhash ipfs =
     onlyAuthorizedSME sender
       (nonReentrant
         (whenNotPaused
           (validTokenId tid
             (validAmount amt
               (logTransaction_body sender now tid ttype amt dhash ipfs)))))"

definition logTransaction ::
  "address \<Rightarrow> uint256 \<Rightarrow> string \<Rightarrow> string \<Rightarrow> uint256 \<Rightarrow> bytes32 \<Rightarrow> string
     \<Rightarrow> (bool \<times> event list) call" where
  "logTransaction sender now tid ttype amt dhash ipfs =
     external_call (logTransaction_code sender now tid ttype amt dhash ipfs)"

definition getAuditTrail_body :: "address \<Rightarrow> Transaction list call" where
  "getAuditTrail_body sme s =
     (if \<not> sme \<noteq> 0 then (Inl InvalidSMEAddress, s) else (Inr (auditTrails s sme), s))"

definition getAuditTrail :: "address \<Rightarrow> AuditTrail \<Rightarrow> error + Transaction list" where
  "getAuditTrail sme = view_call (getAuditTrail_body sme)"

text \<open>
  The loop of \<^verbatim>\<open>verifyToken\<close>: the first record, in append order, whose token has the same
  Keccak-256 digest as the argument. The digest is taken as collision-free, so the
  comparison of the two digests is the comparison of the two byte strings (and a
  \<^verbatim>\<open>mapping(string => _)\<close> is a function of the string).
\<close>

fun scanTrail :: "string \<Rightarrow> Transaction list \<Rightarrow> bool \<times> Transaction" where
  "scanTrail tid [] = (False, emptyTx)"
| "scanTrail tid (r # rs) = (if tokenId r = tid then (True, r) else scanTrail tid rs)"

definition verifyToken_body :: "string \<Rightarrow> address \<Rightarrow> (bool \<times> Transaction) call" where
  "verifyToken_body tid sme s =
     (if \<not> sme \<noteq> 0 then (Inl InvalidSMEAddress, s)
      else (Inr (scanTrail tid (auditTrails s sme)), s))"

definition verifyToken :: "string \<Rightarrow> address \<Rightarrow> AuditTrail \<Rightarrow> error + bool \<times> Transaction" where
  "verifyToken tid sme = view_call (validTokenId tid (verifyToken_body tid sme))"

definition getTransactionCount_body :: "address \<Rightarrow> uint256 call" where
  "getTransactionCount_body sme s =
     (if \<not> sme \<noteq> 0 then (Inl InvalidSMEAddress, s) else (Inr (transactionCounts s sme), s))"

definition getTransactionCount :: "address \<Rightarrow> AuditTrail \<Rightarrow> error + uint256" where
  "getTransactionCount sme = view_call (getTransactionCount_body sme)"

text \<open>
  \<^verbatim>\<open>this.verifyToken(...)\<close> is an external call of the contract to itself: the modifier and
  the \<^verbatim>\<open>require\<close> of \<^verbatim>\<open>verifyToken\<close> run again, and a revert of the inner call reverts the
  outer one with the same reason.
\<close>

definition verifyDataIntegrity_body :: "string \<Rightarrow> address \<Rightarrow> bytes32 \<Rightarrow> bool call" where
  "verifyDataIntegrity_body tid sme expectedHash s =
     (if \<not> sme \<noteq> 0 then (Inl InvalidSMEAddress, s)
      else if \<not> expectedHash \<noteq> 0 then (Inl InvalidExpectedHash, s)
      else (case verifyToken tid sme s of
              Inl e \<Rightarrow> (Inl e, s)
            | Inr (exists, tx) \<Rightarrow>
                if \<not> exists then (Inr False, s)
                else (Inr (dataHash tx = expectedHash), s)))"

definition verifyDataIntegrity :: "string \<Rightarrow> address \<Rightarrow> bytes32 \<Rightarrow> AuditTrail \<Rightarrow> error + bool" where
  "verifyDataIntegrity tid sme expectedHash =
     view_call (validTokenId tid (verifyDataIntegrity_body tid sme expectedHash))"

definition getTransactionByTokenId_body :: "string \<Rightarrow> (bool \<times> Transaction) call" where
  "getTransactionByTokenId_body tid s =
     (if \<not> tokenExists s tid then (Inr (False, emptyTx), s)
      else
        let smeAddress = tokenToSME s tid
        in (case verifyToken tid smeAddress s of
              Inl e \<Rightarrow> (Inl e, s)
            | Inr r \<Rightarrow> (Inr r, s)))"

definition getTransactionByTokenId :: "string \<Rightarrow> AuditTrail \<Rightarrow> error + bool \<times> Transaction" where
  "getTransactionByTokenId tid = view_call (validTokenId tid (getTransactionByTokenId_body tid))"

definition isAuthorizedSME :: "address \<Rightarrow> AuditTrail \<Rightarrow> bool" where
  "isAuthorizedSME sme s = authorizedSMEs s sme"

definition getTotalTransactions :: "AuditTrail \<Rightarrow> uint256" where
  "getTotalTransactions s = totalTransactions s"

definition pause :: "address \<Rightarrow> event list call" where
  "pause sender = external_call (onlyOwner sender (pause_internal sender))"

definition unpause :: "address \<Rightarrow> event list call" where
  "unpause sender = external_call (onlyOwner sender (unpause_internal sender))"

text \<open>
  The loop of \<^verbatim>\<open>batchAuthorizeSMEs\<close>, entered after the two arrays were found to have the
  same length: entry by entry, in order, it checks the address, writes the flag and emits
  the event. The events emitted so far are the accumulator \<open>evs\<close>.
\<close>

fun batchLoop :: "address list \<Rightarrow> bool list \<Rightarrow> event list \<Rightarrow> event list call" where
  "batchLoop (a # as) (b # bs) evs s =
     (if \<not> a \<noteq> 0 then (Inl InvalidSMEAddress, s)
      else batchLoop as bs (evs @ [SMEAuthorized a b])
             (s\<lparr>authorizedSMEs := (authorizedSMEs s)(a := b)\<rparr>))"
| "batchLoop _ _ evs s = (Inr evs, s)"

definition batchAuthorizeSMEs_body :: "address list \<Rightarrow> bool list \<Rightarrow> event list call" where
  "batchAuthorizeSMEs_body smes statuses s =
     (if \<not> length smes = length statuses then (Inl ArraysLengthMismatch, s)
      else if \<not> length smes > 0 then (Inl EmptyArrays, s)
      else batchLoop smes statuses [] s)"

definition batchAuthorizeSMEs :: "address \<Rightarrow> address list \<Rightarrow> bool list \<Rightarrow> event list call" where
  "batchAuthorizeSMEs sender smes statuses =
     external_call (onlyOwner sender (batchAuthorizeSMEs_body smes statuses))"

text \<open>
  Modelled from the spec: the public functions \<^verbatim>\<open>transferOwnership\<close> and
  \<^verbatim>\<open>renounceOwnership\<close> that the contract inherits from Ownable are missing from the source
  tree. They replace the single administrative identity and touch nothing else.
\<close>

definition transferOwnership_body :: "address \<Rightarrow> event list call" where
  "transferOwnership_body newOwner s =
     (if \<not> newOwner \<noteq> 0 then (Inl NewOwnerZero, s)
      else (Inr [OwnershipTransferred (owner s) newOwner], s\<lparr>owner := newOwner\<rparr>))"

definition transferOwnership :: "address \<Rightarrow> address \<Rightarrow> event list call" where
  "transferOwnership sender newOwner =
     external_call (onlyOwner sender (transferOwnership_body newOwner))"

definition renounceOwnership_body :: "event list call" where
  "renounceOwnership_body s = (Inr [OwnershipTransferred (owner s) 0], s\<lparr>owner := 0\<rparr>)"

definition renounceOwnership :: "address \<Rightarrow> event list call" where
  "renounceOwnership sender = external_call (onlyOwner sender renounceOwnership_body)"

section \<open>Reachable states\<close>

text \<open>
  The state-changing entry points of the deployed contract. A state is reachable when it is
  the state after the constructor (run by a deployer, whose address is not zero) or the
  state after any transaction, successful or reverted, sent to a reachable state by any
  sender with any arguments.
\<close>

datatype operation =
    AuthorizeSME address bool
  | LogTransaction uint256 string string uint256 bytes32 string
  | Pause
  | Unpause
  | BatchAuthorizeSMEs "address list" "bool list"
  | TransferOwnership address
  | RenounceOwnership

fun exec :: "address \<Rightarrow> operation \<Rightarrow> AuditTrail \<Rightarrow> AuditTrail" where
  "exec sender (AuthorizeSME sme status) s = snd (authorizeSME sender sme status s)"
| "exec sender (LogTransaction now tid ttype amt dhash ipfs) s =
     snd (logTransaction sender now tid ttype amt dhash ipfs s)"
| "exec sender Pause s = snd (pause sender s)"
| "exec sender Unpause s = snd (unpause sender s)"
| "exec sender (BatchAuthorizeSMEs smes statuses) s =
     snd (batchAuthorizeSMEs sender smes statuses s)"
| "exec sender (TransferOwnership newOwner) s = snd (transferOwnership sender newOwner s)"
| "exec sender RenounceOwnership s = snd (renounceOwnership sender s)"

inductive reachable :: "AuditTrail \<Rightarrow> bool" where
  init: "deployer \<noteq> 0 \<Longrightarrow> reachable (constructor deployer)"
| step: "reachable s \<Longrightarrow> reachable (exec sender opn s)"

section \<open>Definitions for the statements\<close>

text \<open>The storage after a successful \<open>logTransaction\<close>.\<close>

definition logged :: "address \<Rightarrow> uint256 \<Rightarrow> string \<Rightarrow> string \<Rightarrow> uint256 \<Rightarrow> bytes32 \<Rightarrow> string
    \<Rightarrow> AuditTrail \<Rightarrow> AuditTrail" where
  "logged sender now tid ttype amt dhash ipfs s =
     s\<lparr>auditTrails := (auditTrails s)(sender := auditTrails s sender @
          [\<lparr>tokenId = tid, smeAddress = sender, timestamp = now, transactionType = ttype,
            amount = amt, dataHash = dhash, ipfsHash = ipfs, isVerified = True\<rparr>]),
       tokenExists := (tokenExists s)(tid := True),
       tokenToSME := (tokenToSME s)(tid := sender),
       transactionCounts := (transactionCounts s)(sender := transactionCounts s sender + 1),
       totalTransactions := totalTransactions s + 1\<rparr>"

text \<open>
  A concrete reachable state for the examples: the deployer \<open>1\<close> has logged the token
  \<open>T1\<close>.
\<close>

definition example_state :: AuditTrail where
  "example_state = exec 1 (LogTransaction 1000 ''T1'' ''PAYMENT'' 100 7 ''ptr1'') (constructor 1)"

text \<open>
  The authorization flags after assigning the entries of a list one after the other: a
  principal listed more than once ends with the status of its last entry.
\<close>

fun setFlags :: "(address \<times> bool) list \<Rightarrow> (address \<Rightarrow> bool) \<Rightarrow> address \<Rightarrow> bool" where
  "setFlags [] f = f"
| "setFlags ((a, b) # ps) f = setFlags ps (f(a := b))"

text \<open>
  The invariant of the ledger. Every record sits in the trail of its own principal, who is
  not the zero address, and is indexed by \<open>tokenExists\<close> and \<open>tokenToSME\<close> under a
  well-formed token id; every indexed token has its record; no trail holds a token twice;
  the counters count the records.
\<close>

definition records_wf :: "AuditTrail \<Rightarrow> bool" where
  "records_wf s \<longleftrightarrow>
     (\<forall>p. \<forall>r \<in> set (auditTrails s p).
        smeAddress r = p \<and> p \<noteq> 0 \<and> tokenExists s (tokenId r) \<and> tokenToSME s (tokenId r) = p \<and>
        0 < length (tokenId r) \<and> length (tokenId r) \<le> 64)"

definition index_sound :: "AuditTrail \<Rightarrow> bool" where
  "index_sound s \<longleftrightarrow>
     (\<forall>t. tokenExists s t \<longrightarrow> t \<in> tokenId ` set (auditTrails s (tokenToSME s t)))"

definition trails_distinct :: "AuditTrail \<Rightarrow> bool" where
  "trails_distinct s \<longleftrightarrow> (\<forall>p. distinct (map tokenId (auditTrails s p)))"

definition counters_consistent :: "AuditTrail \<Rightarrow> bool" where
  "counters_consistent s \<longleftrightarrow>
     (\<forall>p. unat (transactionCounts s p) = length (auditTrails s p)) \<and>
     unat (totalTransactions s) = (\<Sum>p\<in>UNIV. length (auditTrails s p))"

definition ledger_inv :: "AuditTrail \<Rightarrow> bool" where
  "ledger_inv s \<longleftrightarrow>
     \<not> entered s \<and> \<not> authorizedSMEs s 0 \<and> records_wf s \<and> index_sound s \<and>
     trails_distinct s \<and> counters_consistent s"

text \<open>
  The number of committed records whose principal field is \<open>p\<close>, over all trails, and the
  agreement of the two counters with it.
\<close>

definition recordCount :: "AuditTrail \<Rightarrow> address \<Rightarrow> nat" where
  "recordCount s p = (\<Sum>q\<in>UNIV. length (filter (\<lambda>r. smeAddress r = p) (auditTrails s q)))"

definition counters_match :: "AuditTrail \<Rightarrow> bool" where
  "counters_match s \<longleftrightarrow>
     (\<forall>p. unat (transactionCounts s p) = recordCount s p) \<and>
     unat (totalTransactions s) = (\<Sum>p\<in>UNIV. unat (transactionCounts s p))"

text \<open>
  The preconditions of \<open>logTransaction\<close> in the order in which the code checks them (the
  modifiers in header order, then the \<^verbatim>\<open>require\<close>s of the body), each with its revert
  reason, and the reason of the first check of a list that does not hold.
\<close>

definition logTransaction_checks ::
  "address \<Rightarrow> string \<Rightarrow> string \<Rightarrow> uint256 \<Rightarrow> bytes32 \<Rightarrow> string \<Rightarrow> AuditTrail
     \<Rightarrow> (bool \<times> error) list" where
  "logTransaction_checks sender tid ttype amt dhash ipfs s =
     [(authorizedSMEs s sender, NotAuthorizedSME),
      (\<not> paused s, ContractPaused),
      (0 < length tid, TokenIdEmpty),
      (length tid \<le> 64, TokenIdTooLong),
      (0 < amt, AmountZero),
      (\<not> tokenExists s tid, TokenAlreadyExists),
      (dhash \<noteq> 0, InvalidDataHash),
      (0 < length ttype, TransactionTypeRequired),
      (0 < length ipfs, IpfsHashRequired)]"

fun first_failure :: "(bool \<times> error) list \<Rightarrow> error option" where
  "first_failure [] = None"
| "first_failure ((ok, e) # cs) = (if ok then first_failure cs else Some e)"

section \<open>Closed forms of the operations\<close>

lemmas modifier_defs = external_call_def view_call_def onlyAuthorizedSME_def validTokenId_def
  validAmount_def onlyOwner_def whenNotPaused_def whenPaused_def nonReentrant_def

lemma verifyToken_eq:
  "verifyToken tid sme s =
     (if length tid = 0 then Inl TokenIdEmpty
      else if 64 < length tid then Inl TokenIdTooLong
      else if sme = 0 then Inl InvalidSMEAddress
      else Inr (scanTrail tid (auditTrails s sme)))"
  by (simp add: verifyToken_def verifyToken_body_def modifier_defs)

lemma verifyDataIntegrity_eq:
  "verifyDataIntegrity tid sme h s =
     (if length tid = 0 then Inl TokenIdEmpty
      else if 64 < length tid then Inl TokenIdTooLong
      else if sme = 0 then Inl InvalidSMEAddress
      else if h = 0 then Inl InvalidExpectedHash
      else Inr (fst (scanTrail tid (auditTrails s sme)) \<and>
                dataHash (snd (scanTrail tid (auditTrails s sme))) = h))"
  by (simp add: verifyDataIntegrity_def verifyDataIntegrity_body_def verifyToken_eq modifier_defs
      split: prod.splits)

lemma getAuditTrail_eq:
  "getAuditTrail sme s = (if sme = 0 then Inl InvalidSMEAddress else Inr (auditTrails s sme))"
  by (simp add: getAuditTrail_def getAuditTrail_body_def modifier_defs)

lemma getTransactionByTokenId_eq:
  "getTransactionByTokenId tid s =
     (if length tid = 0 then Inl TokenIdEmpty
      else if 64 < length tid then Inl TokenIdTooLong
      else if \<not> tokenExists s tid then Inr (False, emptyTx)
      else if tokenToSME s tid = 0 then Inl InvalidSMEAddress
      else Inr (scanTrail tid (auditTrails s (tokenToSME s tid))))"
  by (simp add: getTransactionByTokenId_def getTransactionByTokenId_body_def verifyToken_eq
      modifier_defs)

lemma scanTrail_found:
  "fst (scanTrail tid rs) \<Longrightarrow> snd (scanTrail tid rs) \<in> set rs \<and> tokenId (snd (scanTrail tid rs)) = tid"
  by (induction rs) auto

lemma scanTrail_absent:
  "\<not> fst (scanTrail tid rs) \<longleftrightarrow> tid \<notin> tokenId ` set rs"
  by (induction rs) auto

lemma scanTrail_absent_empty:
  "\<not> fst (scanTrail tid rs) \<Longrightarrow> scanTrail tid rs = (False, emptyTx)"
  by (induction rs) auto

lemma scanTrail_distinct:
  "distinct (map tokenId rs) \<Longrightarrow> r \<in> set rs \<Longrightarrow> scanTrail (tokenId r) rs = (True, r)"
  by (induction rs) auto

lemma logTransaction_code_eq:
  "logTransaction_code sender now tid ttype amt dhash ipfs s =
     (if \<not> authorizedSMEs s sender then (Inl NotAuthorizedSME, s)
      else if entered s then (Inl ReentrantCall, s)
      else if paused s then (Inl ContractPaused, s\<lparr>entered := True\<rparr>)
      else if length tid = 0 then (Inl TokenIdEmpty, s\<lparr>entered := True\<rparr>)
      else if 64 < length tid then (Inl TokenIdTooLong, s\<lparr>entered := True\<rparr>)
      else if amt = 0 then (Inl AmountZero, s\<lparr>entered := True\<rparr>)
      else (case logTransaction_body sender now tid ttype amt dhash ipfs (s\<lparr>entered := True\<rparr>) of
              (Inl e, s') \<Rightarrow> (Inl e, s')
            | (Inr r, s') \<Rightarrow> (Inr r, s'\<lparr>entered := False\<rparr>)))"
  by (simp add: logTransaction_code_def modifier_defs word_greater_zero_iff not_less)

lemma logTransaction_eq:
  "logTransaction sender now tid ttype amt dhash ipfs s =
     (if \<not> authorizedSMEs s sender then (Inl NotAuthorizedSME, s)
      else if entered s then (Inl ReentrantCall, s)
      else if paused s then (Inl ContractPaused, s)
      else if length tid = 0 then (Inl TokenIdEmpty, s)
      else if 64 < length tid then (Inl TokenIdTooLong, s)
      else if amt = 0 then (Inl AmountZero, s)
      else if tokenExists s tid then (Inl TokenAlreadyExists, s)
      else if dhash = 0 then (Inl InvalidDataHash, s)
      else if length ttype = 0 then (Inl TransactionTypeRequired, s)
      else if length ipfs = 0 then (Inl IpfsHashRequired, s)
      else if transactionCounts s sender = - 1 then (Inl ArithmeticOverflow, s)
      else if totalTransactions s = - 1 then (Inl ArithmeticOverflow, s)
      else (Inr (True, [TransactionLogged tid sender now dhash ttype amt]),
            logged sender now tid ttype amt dhash ipfs s))"
  by (simp add: logTransaction_def logTransaction_code_eq logTransaction_body_def
      external_call_def logged_def Let_def)

lemma logTransaction_code_checks_before_writes:
  "fst (logTransaction_code sender now tid ttype amt dhash ipfs s) = Inl e \<Longrightarrow>
   e \<noteq> ArithmeticOverflow \<Longrightarrow>
     (snd (logTransaction_code sender now tid ttype amt dhash ipfs s))\<lparr>entered := entered s\<rparr> = s"
  by (auto simp: logTransaction_code_eq logTransaction_body_def Let_def split: if_splits)

lemma authorizeSME_eq:
  "authorizeSME sender sme status s =
     (if owner s \<noteq> sender then (Inl NotOwner, s)
      else if sme = 0 then (Inl InvalidSMEAddress, s)
      else (Inr [SMEAuthorized sme status],
            s\<lparr>authorizedSMEs := (authorizedSMEs s)(sme := status)\<rparr>))"
  by (simp add: authorizeSME_def authorizeSME_body_def modifier_defs)

lemma pause_eq:
  "pause sender s =
     (if owner s \<noteq> sender then (Inl NotOwner, s)
      else if paused s then (Inl ContractPaused, s)
      else (Inr [Paused sender], s\<lparr>paused := True\<rparr>))"
  by (simp add: pause_def pause_internal_def modifier_defs)

lemma unpause_eq:
  "unpause sender s =
     (if owner s \<noteq> sender then (Inl NotOwner, s)
      else if \<not> paused s then (Inl ContractNotPaused, s)
      else (Inr [Unpaused sender], s\<lparr>paused := False\<rparr>))"
  by (simp add: unpause_def unpause_internal_def modifier_defs)

lemma transferOwnership_eq:
  "transferOwnership sender newOwner s =
     (if owner s \<noteq> sender then (Inl NotOwner, s)
      else if newOwner = 0 then (Inl NewOwnerZero, s)
      else (Inr [OwnershipTransferred (owner s) newOwner], s\<lparr>owner := newOwner\<rparr>))"
  by (simp add: transferOwnership_def transferOwnership_body_def modifier_defs)

lemma renounceOwnership_eq:
  "renounceOwnership sender s =
     (if owner s \<noteq> sender then (Inl NotOwner, s)
      else (Inr [OwnershipTransferred (owner s) 0], s\<lparr>owner := 0\<rparr>))"
  by (simp add: renounceOwnership_def renounceOwnership_body_def modifier_defs)

lemma batchLoop_fails:
  "length as = length bs \<Longrightarrow> 0 \<in> set as \<Longrightarrow> fst (batchLoop as bs evs s) = Inl InvalidSMEAddress"
  by (induction as bs evs s rule: batchLoop.induct) auto

lemma batchLoop_succeeds:
  "length as = length bs \<Longrightarrow> 0 \<notin> set as \<Longrightarrow>
     batchLoop as bs evs s =
       (Inr (evs @ map2 SMEAuthorized as bs),
        s\<lparr>authorizedSMEs := setFlags (zip as bs) (authorizedSMEs s)\<rparr>)"
  by (induction as bs evs s rule: batchLoop.induct) auto

lemma batchAuthorizeSMEs_eq:
  "batchAuthorizeSMEs sender smes statuses s =
     (if owner s \<noteq> sender then (Inl NotOwner, s)
      else if length smes \<noteq> length statuses then (Inl ArraysLengthMismatch, s)
      else if smes = [] then (Inl EmptyArrays, s)
      else if 0 \<in> set smes then (Inl InvalidSMEAddress, s)
      else (Inr (map2 SMEAuthorized smes statuses),
            s\<lparr>authorizedSMEs :=
                 setFlags (zip smes statuses) (authorizedSMEs s)\<rparr>))"
proof (cases "length smes = length statuses \<and> 0 \<in> set smes")
  case True
  then have "fst (batchLoop smes statuses [] s) = Inl InvalidSMEAddress"
    by (simp add: batchLoop_fails)
  then show ?thesis
    using True
    by (cases "batchLoop smes statuses [] s")
      (auto simp: batchAuthorizeSMEs_def batchAuthorizeSMEs_body_def modifier_defs)
next
  case False
  then show ?thesis
    by (auto simp: batchAuthorizeSMEs_def batchAuthorizeSMEs_body_def modifier_defs
        batchLoop_succeeds)
qed

lemma setFlags_other:
  "a \<notin> fst ` set ps \<Longrightarrow> setFlags ps f a = f a"
  by (induction ps f rule: setFlags.induct) auto

lemma setFlags_last:
  "i < length ps \<Longrightarrow> fst (ps ! i) \<notin> fst ` set (drop (Suc i) ps) \<Longrightarrow>
     setFlags ps f (fst (ps ! i)) = snd (ps ! i)"
proof (induction ps f arbitrary: i rule: setFlags.induct)
  case (1 f)
  then show ?case by simp
next
  case (2 a b ps f)
  show ?case
  proof (cases i)
    case 0
    with "2.prems" show ?thesis by (simp add: setFlags_other)
  next
    case (Suc j)
    have "setFlags ps (f(a := b)) (fst (ps ! j)) = snd (ps ! j)"
      using "2.prems" Suc by (intro "2.IH") simp_all
    with Suc show ?thesis by simp
  qed
qed

section \<open>The example state\<close>

lemma example_state_eq:
  "example_state =
     \<lparr>owner = 1, paused = False, entered = False,
      auditTrails = (\<lambda>_. [])(1 := [\<lparr>tokenId = ''T1'', smeAddress = 1, timestamp = 1000,
         transactionType = ''PAYMENT'', amount = 100, dataHash = 7, ipfsHash = ''ptr1'',
         isVerified = True\<rparr>]),
      tokenExists = (\<lambda>_. False)(''T1'' := True),
      authorizedSMEs = (\<lambda>_. False)(1 := True),
      tokenToSME = (\<lambda>_. 0)(''T1'' := 1),
      transactionCounts = (\<lambda>_. 0)(1 := 1), totalTransactions = 1\<rparr>"
  by (simp add: example_state_def logTransaction_eq constructor_def logged_def)

lemma example_state_reachable: "reachable example_state"
  unfolding example_state_def by (intro reachable.intros) simp

section \<open>The invariant holds in every reachable state\<close>

lemma ledger_inv_constructor: "deployer \<noteq> 0 \<Longrightarrow> ledger_inv (constructor deployer)"
  by (simp add: ledger_inv_def records_wf_def index_sound_def trails_distinct_def
      counters_consistent_def constructor_def)

lemma ledger_inv_frame:
  assumes "ledger_inv s"
    and "auditTrails s' = auditTrails s" and "tokenExists s' = tokenExists s"
    and "tokenToSME s' = tokenToSME s" and "transactionCounts s' = transactionCounts s"
    and "totalTransactions s' = totalTransactions s" and "entered s' = entered s"
    and "\<not> authorizedSMEs s' 0"
  shows "ledger_inv s'"
  using assms
  by (simp add: ledger_inv_def records_wf_def index_sound_def trails_distinct_def
      counters_consistent_def)

lemma exec_not_log_frame:
  assumes "\<not> authorizedSMEs s 0" and "\<And>now tid ttype amt dhash ipfs. opn \<noteq> LogTransaction now tid ttype amt dhash ipfs"
  shows "auditTrails (exec sender opn s) = auditTrails s \<and>
     tokenExists (exec sender opn s) = tokenExists s \<and>
     tokenToSME (exec sender opn s) = tokenToSME s \<and>
     transactionCounts (exec sender opn s) = transactionCounts s \<and>
     totalTransactions (exec sender opn s) = totalTransactions s \<and>
     entered (exec sender opn s) = entered s \<and>
     \<not> authorizedSMEs (exec sender opn s) 0"
proof (cases opn)
  case (BatchAuthorizeSMEs smes statuses)
  have "0 \<notin> set smes \<Longrightarrow> setFlags (zip smes statuses) (authorizedSMEs s) 0
      = authorizedSMEs s 0"
    by (rule setFlags_other) (auto dest: set_zip_leftD)
  with assms BatchAuthorizeSMEs show ?thesis
    by (simp add: batchAuthorizeSMEs_eq)
qed (use assms in \<open>simp_all add: authorizeSME_eq pause_eq unpause_eq transferOwnership_eq
      renounceOwnership_eq\<close>)

lemma unat_increment:
  fixes c :: uint256
  shows "c \<noteq> - 1 \<Longrightarrow> unat (c + 1) = Suc (unat c)"
proof -
  assume "c \<noteq> - 1"
  then have "1 + c \<noteq> 0" by (simp add: eq_neg_iff_add_eq_0 add.commute)
  then have "unat (1 + c) = Suc (unat c)" by (rule unatSuc)
  then show ?thesis by (simp add: add.commute)
qed

lemma sum_length_append:
  fixes tr :: "address \<Rightarrow> 'a list"
  shows "(\<Sum>p\<in>UNIV. length ((tr(a := tr a @ [x])) p)) = Suc (\<Sum>p\<in>UNIV. length (tr p))"
proof -
  have "(\<Sum>p\<in>UNIV. length ((tr(a := tr a @ [x])) p)) =
      length (tr a @ [x]) + (\<Sum>p\<in>UNIV - {a}. length ((tr(a := tr a @ [x])) p))"
    by (subst sum.remove [of UNIV a]) simp_all
  also have "(\<Sum>p\<in>UNIV - {a}. length ((tr(a := tr a @ [x])) p)) = (\<Sum>p\<in>UNIV - {a}. length (tr p))"
    by (rule sum.cong) simp_all
  also have "length (tr a @ [x]) + (\<Sum>p\<in>UNIV - {a}. length (tr p)) =
      Suc (length (tr a) + (\<Sum>p\<in>UNIV - {a}. length (tr p)))"
    by simp
  also have "length (tr a) + (\<Sum>p\<in>UNIV - {a}. length (tr p)) = (\<Sum>p\<in>UNIV. length (tr p))"
    by (subst sum.remove [of UNIV a "\<lambda>p. length (tr p)"]) simp_all
  finally show ?thesis .
qed

lemma records_wf_logged:
  assumes "records_wf s" and "authorizedSMEs s sender" and "\<not> authorizedSMEs s 0"
    and "\<not> tokenExists s tid" and "0 < length tid" and "length tid \<le> 64"
  shows "records_wf (logged sender now tid ttype amt dhash ipfs s)"
proof -
  from assms(2,3) have "sender \<noteq> 0" by auto
  with assms(1,4-6) show ?thesis
    unfolding records_wf_def logged_def by auto
qed

lemma index_sound_logged:
  assumes "index_sound s" and "\<not> tokenExists s tid"
  shows "index_sound (logged sender now tid ttype amt dhash ipfs s)"
  using assms unfolding index_sound_def logged_def by auto

lemma trails_distinct_logged:
  assumes "trails_distinct s" and "records_wf s" and "\<not> tokenExists s tid"
  shows "trails_distinct (logged sender now tid ttype amt dhash ipfs s)"
  using assms unfolding trails_distinct_def records_wf_def logged_def by auto

lemma counters_consistent_logged:
  assumes "counters_consistent s" and "transactionCounts s sender \<noteq> - 1"
    and "totalTransactions s \<noteq> - 1"
  shows "counters_consistent (logged sender now tid ttype amt dhash ipfs s)"
proof -
  let ?s' = "logged sender now tid ttype amt dhash ipfs s"
  obtain x where tr: "auditTrails ?s' = (auditTrails s)(sender := auditTrails s sender @ [x])"
    by (simp add: logged_def)
  have cnt: "transactionCounts ?s' = (transactionCounts s)(sender := transactionCounts s sender + 1)"
    and tot: "totalTransactions ?s' = totalTransactions s + 1"
    by (simp_all add: logged_def)
  from assms(1) have c: "\<And>p. unat (transactionCounts s p) = length (auditTrails s p)"
    and t: "unat (totalTransactions s) = (\<Sum>p\<in>UNIV. length (auditTrails s p))"
    by (simp_all add: counters_consistent_def)
  have "unat (transactionCounts ?s' p) = length (auditTrails ?s' p)" for p
    using c [of p] c [of sender] assms(2) by (simp add: tr cnt unat_increment)
  moreover have "unat (totalTransactions ?s') = (\<Sum>p\<in>UNIV. length (auditTrails ?s' p))"
    unfolding tr tot sum_length_append using t assms(3) by (simp add: unat_increment)
  ultimately show ?thesis by (simp add: counters_consistent_def)
qed

lemma ledger_inv_logged:
  assumes "ledger_inv s" and "authorizedSMEs s sender" and "\<not> tokenExists s tid"
    and "0 < length tid" and "length tid \<le> 64"
    and "transactionCounts s sender \<noteq> - 1" and "totalTransactions s \<noteq> - 1"
  shows "ledger_inv (logged sender now tid ttype amt dhash ipfs s)"
proof -
  have "entered (logged sender now tid ttype amt dhash ipfs s) = entered s"
    and "authorizedSMEs (logged sender now tid ttype amt dhash ipfs s) = authorizedSMEs s"
    by (simp_all add: logged_def)
  with assms show ?thesis
    unfolding ledger_inv_def
    by (simp add: records_wf_logged index_sound_logged trails_distinct_logged
        counters_consistent_logged)
qed

lemma ledger_inv_exec: "ledger_inv s \<Longrightarrow> ledger_inv (exec sender opn s)"
proof (cases "\<exists>now tid ttype amt dhash ipfs. opn = LogTransaction now tid ttype amt dhash ipfs")
  case True
  assume inv: "ledger_inv s"
  from True obtain now tid ttype amt dhash ipfs
    where opn: "opn = LogTransaction now tid ttype amt dhash ipfs" by blast
  show ?thesis
  proof (cases "isl (fst (logTransaction sender now tid ttype amt dhash ipfs s))")
    case True
    then have "exec sender opn s = s" by (simp add: opn logTransaction_eq split: if_splits)
    with inv show ?thesis by simp
  next
    case False
    then have "exec sender opn s = logged sender now tid ttype amt dhash ipfs s"
      and "authorizedSMEs s sender" and "\<not> tokenExists s tid"
      and "0 < length tid" and "length tid \<le> 64"
      and "transactionCounts s sender \<noteq> - 1" and "totalTransactions s \<noteq> - 1"
      by (simp_all add: opn logTransaction_eq split: if_splits)
    with inv show ?thesis by (simp add: ledger_inv_logged)
  qed
next
  case False
  assume inv: "ledger_inv s"
  then have "\<not> authorizedSMEs s 0" by (simp add: ledger_inv_def)
  from exec_not_log_frame [OF this, of opn sender] False
  have fr: "auditTrails (exec sender opn s) = auditTrails s \<and>
     tokenExists (exec sender opn s) = tokenExists s \<and>
     tokenToSME (exec sender opn s) = tokenToSME s \<and>
     transactionCounts (exec sender opn s) = transactionCounts s \<and>
     totalTransactions (exec sender opn s) = totalTransactions s \<and>
     entered (exec sender opn s) = entered s \<and>
     \<not> authorizedSMEs (exec sender opn s) 0"
    by blast
  show ?thesis
    by (rule ledger_inv_frame [OF inv]) (simp_all add: fr)
qed

lemma reachable_ledger_inv: "reachable s \<Longrightarrow> ledger_inv s"
  by (induction rule: reachable.induct) (simp_all add: ledger_inv_constructor ledger_inv_exec)

lemma reachable_not_entered: "reachable s \<Longrightarrow> \<not> entered s"
  by (drule reachable_ledger_inv) (simp add: ledger_inv_def)

lemma recordCount_wf:
  assumes "records_wf s"
  shows "recordCount s p = length (auditTrails s p)"
proof -
  have "filter (\<lambda>r. smeAddress r = p) (auditTrails s q) = (if q = p then auditTrails s p else [])"
    for q
    using assms by (auto simp: records_wf_def filter_empty_conv filter_id_conv)
  then have "recordCount s p = (\<Sum>q\<in>UNIV. if q = p then length (auditTrails s p) else 0)"
    unfolding recordCount_def by (intro sum.cong) simp_all
  then show ?thesis by simp
qed

lemma ledger_inv_counters_match: "ledger_inv s \<Longrightarrow> counters_match s"
  by (simp add: ledger_inv_def counters_consistent_def counters_match_def recordCount_wf)

lemma distinct_map_nth_inj:
  "distinct (map f xs) \<Longrightarrow> i < length xs \<Longrightarrow> j < length xs \<Longrightarrow> f (xs ! i) = f (xs ! j) \<Longrightarrow> i = j"
  using nth_eq_iff_index_eq [of "map f xs" i j] by simp

section \<open>Global uniqueness of token ids\<close>

text \<open>
  Claim C1. In every reachable state at most one record exists per token id: two positions
  of the trails that hold the same token id are the same position of the same trail. A
  \<open>logTransaction\<close> whose token id is that of a committed record is rejected and changes
  nothing, whoever the caller is (for an authorized caller with a positive amount on an
  unpaused contract the reason is that the token already exists), and it is still rejected
  after the principal of the record has been deauthorized. No operation removes or changes
  a committed record, so the token id stays taken for the lifetime of the contract.
\<close>

theorem tokenId_globally_unique:
  assumes "reachable s"
  shows "(\<forall>p q i j. i < length (auditTrails s p) \<and> j < length (auditTrails s q) \<and>
            tokenId (auditTrails s p ! i) = tokenId (auditTrails s q ! j) \<longrightarrow> p = q \<and> i = j) \<and>
         (\<forall>p r sender now ttype amt dhash ipfs. r \<in> set (auditTrails s p) \<longrightarrow>
            isl (fst (logTransaction sender now (tokenId r) ttype amt dhash ipfs s)) \<and>
            snd (logTransaction sender now (tokenId r) ttype amt dhash ipfs s) = s \<and>
            (authorizedSMEs s sender \<and> \<not> paused s \<and> amt \<noteq> 0 \<longrightarrow>
               fst (logTransaction sender now (tokenId r) ttype amt dhash ipfs s) =
                 Inl TokenAlreadyExists) \<and>
            isl (fst (logTransaction sender now (tokenId r) ttype amt dhash ipfs
                   (snd (authorizeSME (owner s) p False s))))) \<and>
         (\<forall>sender opn p. \<exists>rs. auditTrails (exec sender opn s) p = auditTrails s p @ rs)"
proof (intro conjI allI impI)
  from assms have inv: "ledger_inv s" by (rule reachable_ledger_inv)
  then have wf: "records_wf s" and dis: "trails_distinct s" and ne: "\<not> entered s"
    by (simp_all add: ledger_inv_def)
  {
    fix p q i j
    assume h: "i < length (auditTrails s p) \<and> j < length (auditTrails s q) \<and>
            tokenId (auditTrails s p ! i) = tokenId (auditTrails s q ! j)"
    then have "auditTrails s p ! i \<in> set (auditTrails s p)"
      and "auditTrails s q ! j \<in> set (auditTrails s q)" by simp_all
    with wf h have "tokenToSME s (tokenId (auditTrails s p ! i)) = p"
      and "tokenToSME s (tokenId (auditTrails s p ! i)) = q"
      unfolding records_wf_def by metis+
    then show "p = q" by simp
    moreover from dis have "distinct (map tokenId (auditTrails s p))"
      by (simp add: trails_distinct_def)
    ultimately show "i = j" using h by (auto dest: distinct_map_nth_inj)
  }
  {
    fix p r sender now ttype amt dhash ipfs
    assume "r \<in> set (auditTrails s p)"
    with wf have ex: "tokenExists s (tokenId r)" and len: "0 < length (tokenId r)" "length (tokenId r) \<le> 64"
      unfolding records_wf_def by blast+
    from ex show "isl (fst (logTransaction sender now (tokenId r) ttype amt dhash ipfs s))"
      by (simp add: logTransaction_eq)
    from ex show "snd (logTransaction sender now (tokenId r) ttype amt dhash ipfs s) = s"
      by (simp add: logTransaction_eq)
    from ex show "isl (fst (logTransaction sender now (tokenId r) ttype amt dhash ipfs
                   (snd (authorizeSME (owner s) p False s))))"
      by (simp add: logTransaction_eq authorizeSME_eq)
    assume "authorizedSMEs s sender \<and> \<not> paused s \<and> amt \<noteq> 0"
    with ex len ne show "fst (logTransaction sender now (tokenId r) ttype amt dhash ipfs s) =
                 Inl TokenAlreadyExists"
      by (simp add: logTransaction_eq)
  }
  {
    fix sender opn p
    show "\<exists>rs. auditTrails (exec sender opn s) p = auditTrails s p @ rs"
    proof (cases "\<exists>now tid ttype amt dhash ipfs. opn = LogTransaction now tid ttype amt dhash ipfs")
      case True
      then show ?thesis
        by (auto simp: logTransaction_eq logged_def)
    next
      case False
      from inv have "\<not> authorizedSMEs s 0" by (simp add: ledger_inv_def)
      from exec_not_log_frame [OF this, of opn sender] False
      have "auditTrails (exec sender opn s) = auditTrails s" by blast
      then show ?thesis by simp
    qed
  }
qed

theorem tokenId_globally_unique_witness:
  "reachable (exec 1 (AuthorizeSME 2 True) example_state) \<and>
   authorizedSMEs (exec 1 (AuthorizeSME 2 True) example_state) 2 \<and>
   fst (logTransaction 2 2000 ''T1'' ''INVOICE'' 50 9 ''ptr2''
          (exec 1 (AuthorizeSME 2 True) example_state)) = Inl TokenAlreadyExists \<and>
   snd (logTransaction 2 2000 ''T1'' ''INVOICE'' 50 9 ''ptr2''
          (exec 1 (AuthorizeSME 2 True) example_state)) =
     exec 1 (AuthorizeSME 2 True) example_state"
proof -
  let ?s = "exec 1 (AuthorizeSME 2 True) example_state"
  let ?r = "\<lparr>tokenId = ''T1'', smeAddress = 1, timestamp = 1000,
         transactionType = ''PAYMENT'', amount = 100, dataHash = 7, ipfsHash = ''ptr1'',
         isVerified = True\<rparr>"
  have r: "reachable ?s" by (intro reachable.step example_state_reachable)
  have m: "?r \<in> set (auditTrails ?s 1)"
    and a: "authorizedSMEs ?s 2 \<and> \<not> paused ?s \<and> (50::uint256) \<noteq> 0"
    by (simp_all add: authorizeSME_eq example_state_eq)
  from tokenId_globally_unique [OF r] m a
  have "fst (logTransaction 2 2000 (tokenId ?r) ''INVOICE'' 50 9 ''ptr2'' ?s) = Inl TokenAlreadyExists"
    and "snd (logTransaction 2 2000 (tokenId ?r) ''INVOICE'' 50 9 ''ptr2'' ?s) = ?s"
    by blast+
  with r a show ?thesis by simp
qed

section \<open>Atomicity of rejected appends\<close>

text \<open>
  Claim C2. A rejected \<open>logTransaction\<close> changes nothing. Each precondition violation
  (caller not authorized, contract paused, token id empty or longer than 64 bytes, token id
  already used, zero amount, zero data hash, empty transaction type, empty IPFS hash) makes
  the call revert, and whenever the call reverts, for whatever reason, the whole storage
  after the call is the storage before it: the per-principal record lists, \<open>tokenExists\<close>,
  \<open>tokenToSME\<close>, the per-principal counts and \<open>totalTransactions\<close> included. The code
  itself has written nothing but the mark of the reentrancy guard when a precondition
  check fails: every check precedes every write to the ledger.
\<close>

theorem logTransaction_rejection_atomic:
  "(\<not> authorizedSMEs s sender \<or> paused s \<or> length tid = 0 \<or> 64 < length tid \<or>
    tokenExists s tid \<or> amt = 0 \<or> dhash = 0 \<or> length ttype = 0 \<or> length ipfs = 0 \<longrightarrow>
      isl (fst (logTransaction sender now tid ttype amt dhash ipfs s))) \<and>
   (isl (fst (logTransaction sender now tid ttype amt dhash ipfs s)) \<longrightarrow>
      snd (logTransaction sender now tid ttype amt dhash ipfs s) = s \<and>
      auditTrails (snd (logTransaction sender now tid ttype amt dhash ipfs s)) = auditTrails s \<and>
      tokenExists (snd (logTransaction sender now tid ttype amt dhash ipfs s)) = tokenExists s \<and>
      tokenToSME (snd (logTransaction sender now tid ttype amt dhash ipfs s)) = tokenToSME s \<and>
      transactionCounts (snd (logTransaction sender now tid ttype amt dhash ipfs s)) =
        transactionCounts s \<and>
      totalTransactions (snd (logTransaction sender now tid ttype amt dhash ipfs s)) =
        totalTransactions s) \<and>
   (\<forall>e. fst (logTransaction_code sender now tid ttype amt dhash ipfs s) = Inl e \<and>
        e \<noteq> ArithmeticOverflow \<longrightarrow>
      (snd (logTransaction_code sender now tid ttype amt dhash ipfs s))\<lparr>entered := entered s\<rparr> = s)"
  by (simp add: logTransaction_eq logTransaction_code_checks_before_writes)

theorem logTransaction_rejection_atomic_witness:
  "isl (fst (logTransaction 1 1000 ''T1'' ''PAYMENT'' 0 7 ''ptr1'' (constructor 1))) \<and>
   snd (logTransaction 1 1000 ''T1'' ''PAYMENT'' 0 7 ''ptr1'' (constructor 1)) = constructor 1"
  using logTransaction_rejection_atomic
    [of "constructor 1" 1 "''T1''" 0 7 "''PAYMENT''" "''ptr1''" 1000]
  by simp

section \<open>Consistency of the counters\<close>

text \<open>
  Claim C3. In every reachable state \<open>transactionCounts p\<close> is the number of committed
  records whose principal field is \<open>p\<close>, and \<open>totalTransactions\<close> is the sum of
  \<open>transactionCounts\<close> over all principals; the state after any operation by any sender
  (\<open>logTransaction\<close>, \<open>authorizeSME\<close>, \<open>batchAuthorizeSMEs\<close>, \<open>pause\<close>, \<open>unpause\<close> and the
  ownership functions) satisfies the same.
\<close>

theorem counters_consistent_reachable:
  "reachable s \<Longrightarrow> counters_match s \<and> (\<forall>sender opn. counters_match (exec sender opn s))"
  by (simp add: reachable_ledger_inv ledger_inv_exec ledger_inv_counters_match)

theorem counters_consistent_reachable_witness:
  "counters_match example_state \<and> transactionCounts example_state 1 = 1 \<and>
   totalTransactions example_state = 1 \<and>
   counters_match (exec 1 (LogTransaction 2000 ''T2'' ''INVOICE'' 50 9 ''ptr2'') example_state)"
proof -
  from counters_consistent_reachable [OF example_state_reachable]
  have "counters_match example_state"
    and "counters_match (exec 1 (LogTransaction 2000 ''T2'' ''INVOICE'' 50 9 ''ptr2'') example_state)"
    by blast+
  moreover have "transactionCounts example_state 1 = 1 \<and> totalTransactions example_state = 1"
    by (simp add: example_state_eq)
  ultimately show ?thesis by blast
qed

section \<open>Integrity verification\<close>

text \<open>
  Claim C4, as stated, fails at the zero expected hash: \<open>verifyToken\<close> reports the token
  absent, and \<open>verifyDataIntegrity\<close> reverts instead of returning false.
\<close>

theorem verifyDataIntegrity_absent_counterexample:
  "verifyToken ''T1'' 1 (constructor 1) = Inr (False, emptyTx) \<and>
   verifyDataIntegrity ''T1'' 1 0 (constructor 1) = Inl InvalidExpectedHash"
  by (simp add: verifyToken_eq verifyDataIntegrity_eq constructor_def)

text \<open>
  Claim C4, amended. \<open>verifyDataIntegrity\<close> returns true only if \<open>verifyToken\<close> finds a
  record with that token id in the sequence of that principal and the \<open>dataHash\<close> of the
  record is the expected hash. For a non-zero expected hash it is the composition with
  \<open>verifyToken\<close>: it reverts as \<open>verifyToken\<close> does, and otherwise answers whether the
  token was found with that hash. Whenever \<open>verifyToken\<close> reports the token absent it
  returns false for a non-zero expected hash and reverts with the invalid-expected-hash
  reason for the zero hash.
\<close>

theorem verifyDataIntegrity_correct:
  "(verifyDataIntegrity tid sme h s = Inr True \<longrightarrow>
      (\<exists>r. verifyToken tid sme s = Inr (True, r) \<and> r \<in> set (auditTrails s sme) \<and>
           tokenId r = tid \<and> dataHash r = h)) \<and>
   (h \<noteq> 0 \<longrightarrow>
      verifyDataIntegrity tid sme h s =
        (case verifyToken tid sme s of
           Inl e \<Rightarrow> Inl e
         | Inr (exists, tx) \<Rightarrow> Inr (exists \<and> dataHash tx = h))) \<and>
   (verifyToken tid sme s = Inr (False, tx) \<longrightarrow>
      verifyDataIntegrity tid sme h s =
        (if h = 0 then Inl InvalidExpectedHash else Inr False))"
proof (intro conjI impI)
  assume t: "verifyDataIntegrity tid sme h s = Inr True"
  then have found: "fst (scanTrail tid (auditTrails s sme))"
    and hash: "dataHash (snd (scanTrail tid (auditTrails s sme))) = h"
    and vt: "verifyToken tid sme s = Inr (scanTrail tid (auditTrails s sme))"
    by (auto simp: verifyDataIntegrity_eq verifyToken_eq split: if_splits)
  from scanTrail_found [OF found] found hash vt
  show "\<exists>r. verifyToken tid sme s = Inr (True, r) \<and> r \<in> set (auditTrails s sme) \<and>
           tokenId r = tid \<and> dataHash r = h"
    by (cases "scanTrail tid (auditTrails s sme)") auto
next
  assume "h \<noteq> 0"
  then show "verifyDataIntegrity tid sme h s =
        (case verifyToken tid sme s of
           Inl e \<Rightarrow> Inl e
         | Inr (exists, tx) \<Rightarrow> Inr (exists \<and> dataHash tx = h))"
    by (simp add: verifyDataIntegrity_eq verifyToken_eq split: prod.splits)
next
  assume "verifyToken tid sme s = Inr (False, tx)"
  then show "verifyDataIntegrity tid sme h s =
        (if h = 0 then Inl InvalidExpectedHash else Inr False)"
    by (auto simp: verifyDataIntegrity_eq verifyToken_eq split: if_splits)
qed

theorem verifyDataIntegrity_correct_witness:
  "verifyDataIntegrity ''T1'' 1 7 example_state = Inr True \<and>
   (\<exists>r. verifyToken ''T1'' 1 example_state = Inr (True, r) \<and>
        r \<in> set (auditTrails example_state 1) \<and> tokenId r = ''T1'' \<and> dataHash r = 7)"
proof -
  have t: "verifyDataIntegrity ''T1'' 1 7 example_state = Inr True"
    by (simp add: verifyDataIntegrity_eq example_state_eq)
  with verifyDataIntegrity_correct [of "''T1''" 1 7 example_state] show ?thesis
    by blast
qed

section \<open>Order of the preconditions of an append\<close>

text \<open>
  Claim C5, as stated, fails twice. On a paused contract a caller who is not authorized is
  rejected with the not-authorized reason, not the paused one; and a call with a token id
  already used and a zero amount is rejected with the amount reason, not the duplicate one.
\<close>

theorem precondition_order_counterexample:
  "paused (exec 1 Pause (constructor 1)) \<and>
   \<not> authorizedSMEs (exec 1 Pause (constructor 1)) 2 \<and>
   fst (logTransaction 2 1000 ''T1'' ''PAYMENT'' 100 7 ''ptr1'' (exec 1 Pause (constructor 1))) =
     Inl NotAuthorizedSME \<and>
   authorizedSMEs example_state 1 \<and> tokenExists example_state ''T1'' \<and>
   fst (logTransaction 1 2000 ''T1'' ''INVOICE'' 0 9 ''ptr2'' example_state) = Inl AmountZero"
  by (simp add: pause_eq constructor_def logTransaction_eq example_state_eq)

text \<open>
  Claim C5, amended. In a reachable state \<open>logTransaction\<close> checks its preconditions in the
  order: caller authorized; contract not paused; token id not empty; token id at most 64
  bytes; amount positive; token id not already used; data hash non-zero; transaction type
  not empty; IPFS hash not empty. The call reverts with the reason of the first of them
  that does not hold and leaves the storage as it was; when all hold, the call returns true
  with the logged event, unless one of the two counters is at its maximum.
\<close>

theorem logTransaction_precondition_order:
  assumes "reachable s"
  shows "(first_failure (logTransaction_checks sender tid ttype amt dhash ipfs s) = Some e \<longrightarrow>
            logTransaction sender now tid ttype amt dhash ipfs s = (Inl e, s)) \<and>
         (first_failure (logTransaction_checks sender tid ttype amt dhash ipfs s) = None \<longrightarrow>
            fst (logTransaction sender now tid ttype amt dhash ipfs s) =
              (if transactionCounts s sender = - 1 \<or> totalTransactions s = - 1
               then Inl ArithmeticOverflow
               else Inr (True, [TransactionLogged tid sender now dhash ttype amt])))"
  using reachable_not_entered [OF assms]
  by (auto simp: logTransaction_checks_def logTransaction_eq word_greater_zero_iff)

theorem logTransaction_precondition_order_witness:
  "reachable (exec 1 Pause example_state) \<and>
   logTransaction 2 2000 [] [] 0 0 [] (exec 1 Pause example_state) =
     (Inl NotAuthorizedSME, exec 1 Pause example_state) \<and>
   logTransaction 1 2000 [] [] 0 0 [] (exec 1 Pause example_state) =
     (Inl ContractPaused, exec 1 Pause example_state) \<and>
   logTransaction 1 2000 ''T1'' [] 0 0 [] example_state = (Inl AmountZero, example_state) \<and>
   logTransaction 1 2000 ''T1'' [] 5 0 [] example_state = (Inl TokenAlreadyExists, example_state) \<and>
   fst (logTransaction 1 2000 ''T2'' ''INVOICE'' 50 9 ''ptr2'' example_state) =
     Inr (True, [TransactionLogged ''T2'' 1 2000 9 ''INVOICE'' 50])"
proof -
  let ?p = "exec 1 Pause example_state"
  have r: "reachable ?p" by (intro reachable.step example_state_reachable)
  have "first_failure (logTransaction_checks 2 [] [] 0 0 [] ?p) = Some NotAuthorizedSME"
    by (simp add: pause_eq logTransaction_checks_def example_state_eq)
  with logTransaction_precondition_order [OF r, of 2 "[]" "[]" 0 0 "[]" NotAuthorizedSME 2000]
  have 1: "logTransaction 2 2000 [] [] 0 0 [] ?p = (Inl NotAuthorizedSME, ?p)" by blast
  have "first_failure (logTransaction_checks 1 [] [] 0 0 [] ?p) = Some ContractPaused"
    by (simp add: pause_eq logTransaction_checks_def example_state_eq)
  with logTransaction_precondition_order [OF r, of 1 "[]" "[]" 0 0 "[]" ContractPaused 2000]
  have 2: "logTransaction 1 2000 [] [] 0 0 [] ?p = (Inl ContractPaused, ?p)" by blast
  have "first_failure (logTransaction_checks 1 ''T1'' [] 0 0 [] example_state) = Some AmountZero"
    by (simp add: logTransaction_checks_def example_state_eq)
  with logTransaction_precondition_order
    [OF example_state_reachable, of 1 "''T1''" "[]" 0 0 "[]" AmountZero 2000]
  have 3: "logTransaction 1 2000 ''T1'' [] 0 0 [] example_state = (Inl AmountZero, example_state)"
    by blast
  have "first_failure (logTransaction_checks 1 ''T1'' [] 5 0 [] example_state) =
      Some TokenAlreadyExists"
    by (simp add: logTransaction_checks_def example_state_eq)
  with logTransaction_precondition_order
    [OF example_state_reachable, of 1 "''T1''" "[]" 5 0 "[]" TokenAlreadyExists 2000]
  have 4: "logTransaction 1 2000 ''T1'' [] 5 0 [] example_state =
      (Inl TokenAlreadyExists, example_state)"
    by blast
  have "first_failure (logTransaction_checks 1 ''T2'' ''INVOICE'' 50 9 ''ptr2'' example_state) = None"
    and "\<not> (transactionCounts example_state 1 = - 1 \<or> totalTransactions example_state = - 1)"
    by (simp_all add: logTransaction_checks_def example_state_eq)
  with logTransaction_precondition_order
    [OF example_state_reachable, of 1 "''T2''" "''INVOICE''" 50 9 "''ptr2''" _ 2000]
  have 5: "fst (logTransaction 1 2000 ''T2'' ''INVOICE'' 50 9 ''ptr2'' example_state) =
     Inr (True, [TransactionLogged ''T2'' 1 2000 9 ''INVOICE'' 50])"
    by simp
  from r 1 2 3 4 5 show ?thesis by blast
qed

section \<open>Deauthorization changes the flag only\<close>

text \<open>
  Claim C6. \<open>authorizeSME P False\<close>, by any sender, changes at most the authorization flag
  of \<open>P\<close>: the trails, \<open>tokenExists\<close>, \<open>tokenToSME\<close>, both counters, the pause flag, the
  owner and the flags of all other principals are as before. When the owner sends it for a
  non-zero \<open>P\<close>, the flag of \<open>P\<close> is cleared and a later append by \<open>P\<close> is rejected as not
  authorized. \<open>getAuditTrail\<close>, \<open>verifyToken\<close>, \<open>verifyDataIntegrity\<close> and
  \<open>getTransactionByTokenId\<close> answer after the call what they answered before it, for every
  argument.
\<close>

theorem deauthorization_frame:
  "s' = snd (authorizeSME sender P False s) \<Longrightarrow>
     auditTrails s' = auditTrails s \<and> tokenExists s' = tokenExists s \<and>
     tokenToSME s' = tokenToSME s \<and> transactionCounts s' = transactionCounts s \<and>
     totalTransactions s' = totalTransactions s \<and> paused s' = paused s \<and>
     owner s' = owner s \<and> entered s' = entered s \<and>
     (\<forall>q. q \<noteq> P \<longrightarrow> authorizedSMEs s' q = authorizedSMEs s q) \<and>
     (sender = owner s \<and> P \<noteq> 0 \<longrightarrow>
        \<not> authorizedSMEs s' P \<and>
        fst (logTransaction P now tid ttype amt dhash ipfs s') = Inl NotAuthorizedSME) \<and>
     (\<forall>q. getAuditTrail q s' = getAuditTrail q s) \<and>
     (\<forall>t q. verifyToken t q s' = verifyToken t q s) \<and>
     (\<forall>t q h. verifyDataIntegrity t q h s' = verifyDataIntegrity t q h s) \<and>
     (\<forall>t. getTransactionByTokenId t s' = getTransactionByTokenId t s)"
  by (simp add: authorizeSME_eq getAuditTrail_eq verifyToken_eq verifyDataIntegrity_eq
      getTransactionByTokenId_eq logTransaction_eq)

theorem deauthorization_frame_witness:
  "auditTrails (snd (authorizeSME 1 1 False example_state)) = auditTrails example_state \<and>
   \<not> authorizedSMEs (snd (authorizeSME 1 1 False example_state)) 1 \<and>
   fst (logTransaction 1 2000 ''T2'' ''INVOICE'' 50 9 ''ptr2''
          (snd (authorizeSME 1 1 False example_state))) = Inl NotAuthorizedSME \<and>
   verifyToken ''T1'' 1 (snd (authorizeSME 1 1 False example_state)) =
     Inr (True, \<lparr>tokenId = ''T1'', smeAddress = 1, timestamp = 1000,
         transactionType = ''PAYMENT'', amount = 100, dataHash = 7, ipfsHash = ''ptr1'',
         isVerified = True\<rparr>)"
proof -
  have o: "(1::address) = owner example_state \<and> (1::address) \<noteq> 0"
    by (simp add: example_state_eq)
  have v: "verifyToken ''T1'' 1 example_state =
     Inr (True, \<lparr>tokenId = ''T1'', smeAddress = 1, timestamp = 1000,
         transactionType = ''PAYMENT'', amount = 100, dataHash = 7, ipfsHash = ''ptr1'',
         isVerified = True\<rparr>)"
    by (simp add: verifyToken_eq example_state_eq)
  from deauthorization_frame
    [OF refl, of 1 1 example_state 2000 "''T2''" "''INVOICE''" 50 9 "''ptr2''"] o v
  show ?thesis by simp
qed

section \<open>Pause gating\<close>

text \<open>
  Claim C7, as stated, fails for a caller who is not authorized: on a paused contract the
  append of such a caller is rejected with the not-authorized reason, not the paused one.
\<close>

theorem pause_gating_counterexample:
  "reachable (exec 1 Pause example_state) \<and> paused (exec 1 Pause example_state) \<and>
   fst (logTransaction 3 3000 ''T3'' ''REFUND'' 10 11 ''ptr3'' (exec 1 Pause example_state)) =
     Inl NotAuthorizedSME"
proof -
  have "reachable (exec 1 Pause example_state)"
    by (intro reachable.step example_state_reachable)
  then show ?thesis by (simp add: pause_eq logTransaction_eq example_state_eq)
qed

text \<open>
  Claim C7, amended. In every reachable state whose pause flag is set, \<open>logTransaction\<close>
  fails for every caller and every argument and leaves the storage unchanged: with the
  paused reason when the caller is authorized, with the not-authorized reason otherwise.
  \<open>getAuditTrail\<close>, \<open>verifyToken\<close>, \<open>getTransactionByTokenId\<close> and \<open>verifyDataIntegrity\<close>
  answer after \<open>pause\<close> what they answered before it. A pause by the owner followed by an
  unpause restores the storage, so an append then has the outcome it had before the pause.
\<close>

theorem pause_gating:
  assumes "reachable s"
  shows "(paused s \<longrightarrow>
            (\<forall>sender now tid ttype amt dhash ipfs.
               logTransaction sender now tid ttype amt dhash ipfs s =
                 (Inl (if authorizedSMEs s sender then ContractPaused else NotAuthorizedSME), s))) \<and>
         (\<forall>sender.
            (\<forall>p. getAuditTrail p (snd (pause sender s)) = getAuditTrail p s) \<and>
            (\<forall>t p. verifyToken t p (snd (pause sender s)) = verifyToken t p s) \<and>
            (\<forall>t. getTransactionByTokenId t (snd (pause sender s)) = getTransactionByTokenId t s) \<and>
            (\<forall>t p h. verifyDataIntegrity t p h (snd (pause sender s)) =
               verifyDataIntegrity t p h s)) \<and>
         (\<not> paused s \<longrightarrow>
            paused (snd (pause (owner s) s)) \<and>
            snd (unpause (owner s) (snd (pause (owner s) s))) = s \<and>
            (\<forall>sender now tid ttype amt dhash ipfs.
               logTransaction sender now tid ttype amt dhash ipfs
                 (snd (unpause (owner s) (snd (pause (owner s) s)))) =
               logTransaction sender now tid ttype amt dhash ipfs s))"
proof (intro conjI)
  from assms have ne: "\<not> entered s" by (rule reachable_not_entered)
  then show "paused s \<longrightarrow>
            (\<forall>sender now tid ttype amt dhash ipfs.
               logTransaction sender now tid ttype amt dhash ipfs s =
                 (Inl (if authorizedSMEs s sender then ContractPaused else NotAuthorizedSME), s))"
    by (simp add: logTransaction_eq)
  show "\<forall>sender.
            (\<forall>p. getAuditTrail p (snd (pause sender s)) = getAuditTrail p s) \<and>
            (\<forall>t p. verifyToken t p (snd (pause sender s)) = verifyToken t p s) \<and>
            (\<forall>t. getTransactionByTokenId t (snd (pause sender s)) = getTransactionByTokenId t s) \<and>
            (\<forall>t p h. verifyDataIntegrity t p h (snd (pause sender s)) =
               verifyDataIntegrity t p h s)"
    by (simp add: pause_eq getAuditTrail_eq verifyToken_eq getTransactionByTokenId_eq
        verifyDataIntegrity_eq)
  have restore: "\<not> paused s \<Longrightarrow> snd (unpause (owner s) (snd (pause (owner s) s))) = s"
    by (simp add: pause_eq unpause_eq)
  show "\<not> paused s \<longrightarrow>
            paused (snd (pause (owner s) s)) \<and>
            snd (unpause (owner s) (snd (pause (owner s) s))) = s \<and>
            (\<forall>sender now tid ttype amt dhash ipfs.
               logTransaction sender now tid ttype amt dhash ipfs
                 (snd (unpause (owner s) (snd (pause (owner s) s)))) =
               logTransaction sender now tid ttype amt dhash ipfs s)"
    by (simp add: restore) (simp add: pause_eq)
qed

theorem pause_gating_witness:
  "paused (exec 1 Pause example_state) \<and>
   logTransaction 1 3000 ''T3'' ''REFUND'' 10 11 ''ptr3'' (exec 1 Pause example_state) =
     (Inl ContractPaused, exec 1 Pause example_state) \<and>
   verifyToken ''T1'' 1 (snd (pause 1 example_state)) = verifyToken ''T1'' 1 example_state \<and>
   snd (unpause 1 (snd (pause 1 example_state))) = example_state"
proof -
  let ?p = "exec 1 Pause example_state"
  have r: "reachable ?p" by (intro reachable.step example_state_reachable)
  have p: "paused ?p" and a: "authorizedSMEs ?p 1"
    by (simp_all add: pause_eq example_state_eq)
  have o: "owner example_state = 1" and np: "\<not> paused example_state"
    by (simp_all add: example_state_eq)
  from pause_gating [OF r] p a
  have 1: "logTransaction 1 3000 ''T3'' ''REFUND'' 10 11 ''ptr3'' ?p = (Inl ContractPaused, ?p)"
    by simp
  from pause_gating [OF example_state_reachable]
  have 2: "verifyToken ''T1'' 1 (snd (pause 1 example_state)) = verifyToken ''T1'' 1 example_state"
    by blast
  from pause_gating [OF example_state_reachable] np
  have "snd (unpause (owner example_state) (snd (pause (owner example_state) example_state))) =
      example_state"
    by blast
  then have 3: "snd (unpause 1 (snd (pause 1 example_state))) = example_state"
    unfolding o .
  from p 1 2 3 show ?thesis by blast
qed

section \<open>Batch authorization is all or nothing\<close>

text \<open>
  Claim C8. \<open>batchAuthorizeSMEs\<close> reverts and leaves the storage, so every authorization
  flag, as it was when the two lists differ in length, or are empty, or some listed
  principal is the zero address; the flags written for the entries before a zero address
  are undone with the rest. Otherwise, sent by the owner, it processes the entries in list
  order, sets the flag of the i-th principal to the i-th status and emits one
  \<open>SMEAuthorized\<close> event per entry, in list order; nothing but the flags changes. Afterwards
  each listed principal has the status of its entry (of its last entry when it is listed
  more than once), and the flag of a principal that is not listed is unchanged.
\<close>

theorem batchAuthorizeSMEs_all_or_nothing:
  "(length smes \<noteq> length statuses \<or> smes = [] \<or> statuses = [] \<or> 0 \<in> set smes \<longrightarrow>
      isl (fst (batchAuthorizeSMEs sender smes statuses s)) \<and>
      snd (batchAuthorizeSMEs sender smes statuses s) = s \<and>
      authorizedSMEs (snd (batchAuthorizeSMEs sender smes statuses s)) = authorizedSMEs s) \<and>
   (sender = owner s \<and> length smes = length statuses \<and> smes \<noteq> [] \<and> 0 \<notin> set smes \<longrightarrow>
      fst (batchAuthorizeSMEs sender smes statuses s) = Inr (map2 SMEAuthorized smes statuses) \<and>
      snd (batchAuthorizeSMEs sender smes statuses s) =
        s\<lparr>authorizedSMEs := setFlags (zip smes statuses) (authorizedSMEs s)\<rparr> \<and>
      (\<forall>i < length smes. smes ! i \<notin> set (drop (Suc i) smes) \<longrightarrow>
         authorizedSMEs (snd (batchAuthorizeSMEs sender smes statuses s)) (smes ! i) =
           statuses ! i) \<and>
      (\<forall>a. a \<notin> set smes \<longrightarrow>
         authorizedSMEs (snd (batchAuthorizeSMEs sender smes statuses s)) a =
           authorizedSMEs s a))"
proof (intro conjI impI)
  assume "length smes \<noteq> length statuses \<or> smes = [] \<or> statuses = [] \<or> 0 \<in> set smes"
  then have bad: "length smes \<noteq> length statuses \<or> smes = [] \<or> 0 \<in> set smes" by auto
  then show "isl (fst (batchAuthorizeSMEs sender smes statuses s))"
    by (auto simp: batchAuthorizeSMEs_eq)
  from bad show st: "snd (batchAuthorizeSMEs sender smes statuses s) = s"
    by (auto simp: batchAuthorizeSMEs_eq)
  then show "authorizedSMEs (snd (batchAuthorizeSMEs sender smes statuses s)) = authorizedSMEs s"
    by simp
next
  assume ok: "sender = owner s \<and> length smes = length statuses \<and> smes \<noteq> [] \<and> 0 \<notin> set smes"
  then show "fst (batchAuthorizeSMEs sender smes statuses s) =
      Inr (map2 SMEAuthorized smes statuses)"
    by (simp add: batchAuthorizeSMEs_eq)
  from ok show st: "snd (batchAuthorizeSMEs sender smes statuses s) =
        s\<lparr>authorizedSMEs := setFlags (zip smes statuses) (authorizedSMEs s)\<rparr>"
    by (simp add: batchAuthorizeSMEs_eq)
  show "\<forall>i < length smes. smes ! i \<notin> set (drop (Suc i) smes) \<longrightarrow>
         authorizedSMEs (snd (batchAuthorizeSMEs sender smes statuses s)) (smes ! i) =
           statuses ! i"
  proof (intro allI impI)
    fix i
    assume i: "i < length smes" and last: "smes ! i \<notin> set (drop (Suc i) smes)"
    from ok i have len: "i < length (zip smes statuses)" by simp
    from ok have "fst ` set (drop (Suc i) (zip smes statuses)) \<subseteq> set (drop (Suc i) smes)"
      by (auto simp: drop_zip dest: set_zip_leftD)
    with last ok i have "fst (zip smes statuses ! i) \<notin> fst ` set (drop (Suc i) (zip smes statuses))"
      by auto
    from setFlags_last [OF len this, of "authorizedSMEs s"] ok i
    show "authorizedSMEs (snd (batchAuthorizeSMEs sender smes statuses s)) (smes ! i) =
           statuses ! i"
      unfolding st by simp
  qed
  show "\<forall>a. a \<notin> set smes \<longrightarrow>
         authorizedSMEs (snd (batchAuthorizeSMEs sender smes statuses s)) a =
           authorizedSMEs s a"
  proof (intro allI impI)
    fix a
    assume "a \<notin> set smes"
    then have "a \<notin> fst ` set (zip smes statuses)" by (auto dest: set_zip_leftD)
    from setFlags_other [OF this, of "authorizedSMEs s"]
    show "authorizedSMEs (snd (batchAuthorizeSMEs sender smes statuses s)) a =
           authorizedSMEs s a"
      unfolding st by simp
  qed
qed

theorem batchAuthorizeSMEs_all_or_nothing_witness:
  "fst (batchAuthorizeSMEs 1 [2, 3] [True, False] (constructor 1)) =
     Inr [SMEAuthorized 2 True, SMEAuthorized 3 False] \<and>
   authorizedSMEs (snd (batchAuthorizeSMEs 1 [2, 3] [True, False] (constructor 1))) 2 = True \<and>
   authorizedSMEs (snd (batchAuthorizeSMEs 1 [2, 3] [True, False] (constructor 1))) 3 = False \<and>
   isl (fst (batchAuthorizeSMEs 1 [2, 0] [True, True] (constructor 1))) \<and>
   snd (batchAuthorizeSMEs 1 [2, 0] [True, True] (constructor 1)) = constructor 1"
proof -
  have ok: "(1::address) = owner (constructor 1) \<and> length [2, 3 :: address] = length [True, False] \<and>
      [2, 3 :: address] \<noteq> [] \<and> 0 \<notin> set [2, 3 :: address]"
    by (simp add: constructor_def)
  from batchAuthorizeSMEs_all_or_nothing [of "[2, 3]" "[True, False]" 1 "constructor 1"] ok
  have e: "fst (batchAuthorizeSMEs 1 [2, 3] [True, False] (constructor 1)) =
      Inr (map2 SMEAuthorized [2, 3] [True, False])"
    and f: "\<forall>i < length [2, 3 :: address].
       [2, 3 :: address] ! i \<notin> set (drop (Suc i) [2, 3 :: address]) \<longrightarrow>
         authorizedSMEs (snd (batchAuthorizeSMEs 1 [2, 3] [True, False] (constructor 1)))
           ([2, 3] ! i) = [True, False] ! i"
    by blast+
  from f [rule_format, of 0] f [rule_format, of 1]
  have g: "authorizedSMEs (snd (batchAuthorizeSMEs 1 [2, 3] [True, False] (constructor 1))) 2 = True"
    "authorizedSMEs (snd (batchAuthorizeSMEs 1 [2, 3] [True, False] (constructor 1))) 3 = False"
    by simp_all
  have bad: "length [2, 0 :: address] \<noteq> length [True, True] \<or> [2, 0 :: address] = [] \<or>
      [True, True] = [] \<or> 0 \<in> set [2, 0 :: address]"
    by simp
  from batchAuthorizeSMEs_all_or_nothing [of "[2, 0]" "[True, True]" 1 "constructor 1"] bad
  have h: "isl (fst (batchAuthorizeSMEs 1 [2, 0] [True, True] (constructor 1)))"
    "snd (batchAuthorizeSMEs 1 [2, 0] [True, True] (constructor 1)) = constructor 1"
    by blast+
  from e g h show ?thesis by simp
qed

section \<open>Consistency of the reverse index\<close>

text \<open>
  Claim C9, as stated, fails for a malformed token id: in the state after the constructor
  no record exists and \<open>tokenExists\<close> is false for the empty token id, and
  \<open>getTransactionByTokenId\<close> reverts on it instead of returning \<open>(False, emptyTx)\<close>.
\<close>

theorem getTransactionByTokenId_counterexample:
  "reachable (constructor 1) \<and>
   \<not> tokenExists (constructor 1) [] \<and> auditTrails (constructor 1) 1 = [] \<and>
   getTransactionByTokenId [] (constructor 1) = Inl TokenIdEmpty \<and>
   getTransactionByTokenId [] (constructor 1) \<noteq> Inr (False, emptyTx)"
proof -
  have "reachable (constructor 1)" by (rule reachable.init) simp
  then show ?thesis by (simp add: getTransactionByTokenId_eq constructor_def)
qed

text \<open>
  Claim C9, amended. In every reachable state \<open>tokenExists t\<close> holds exactly when the trail
  of some principal contains a record with token id \<open>t\<close>; the principal field of that
  record and \<open>tokenToSME t\<close> are that principal; the record is unique; and
  \<open>getTransactionByTokenId t\<close> returns \<open>(True, r)\<close> for that record \<open>r\<close>. When no record has
  the token id \<open>t\<close> and \<open>t\<close> is well-formed (1 to 64 bytes), it returns \<open>(False, emptyTx)\<close>.
  For a malformed \<open>t\<close> it reverts: with the empty-token-id reason when \<open>t\<close> is empty, with
  the token-id-too-long reason when \<open>t\<close> is longer than 64 bytes; no record has such a
  token id.
\<close>

theorem reverse_index_consistent:
  assumes "reachable s"
  shows "(\<forall>t. tokenExists s t \<longleftrightarrow> (\<exists>p. t \<in> tokenId ` set (auditTrails s p))) \<and>
         (\<forall>p r. r \<in> set (auditTrails s p) \<longrightarrow>
            smeAddress r = p \<and> tokenToSME s (tokenId r) = p \<and>
            getTransactionByTokenId (tokenId r) s = Inr (True, r)) \<and>
         (\<forall>p q r r'. r \<in> set (auditTrails s p) \<and> r' \<in> set (auditTrails s q) \<and>
            tokenId r = tokenId r' \<longrightarrow> p = q \<and> r = r') \<and>
         (\<forall>t. 0 < length t \<and> length t \<le> 64 \<and> (\<forall>p. t \<notin> tokenId ` set (auditTrails s p)) \<longrightarrow>
            getTransactionByTokenId t s = Inr (False, emptyTx)) \<and>
         (\<forall>t. length t = 0 \<longrightarrow>
            getTransactionByTokenId t s = Inl TokenIdEmpty \<and>
            (\<forall>p. t \<notin> tokenId ` set (auditTrails s p))) \<and>
         (\<forall>t. 64 < length t \<longrightarrow>
            getTransactionByTokenId t s = Inl TokenIdTooLong \<and>
            (\<forall>p. t \<notin> tokenId ` set (auditTrails s p)))"
proof -
  from assms have inv: "ledger_inv s" by (rule reachable_ledger_inv)
  then have wf: "records_wf s" and dis: "trails_distinct s" and ix: "index_sound s"
    by (simp_all add: ledger_inv_def)
  have ex: "tokenExists s t \<longleftrightarrow> (\<exists>p. t \<in> tokenId ` set (auditTrails s p))" for t
  proof
    assume "tokenExists s t"
    with ix show "\<exists>p. t \<in> tokenId ` set (auditTrails s p)"
      unfolding index_sound_def by blast
  next
    assume "\<exists>p. t \<in> tokenId ` set (auditTrails s p)"
    with wf show "tokenExists s t" unfolding records_wf_def by blast
  qed
  have rec: "smeAddress r = p \<and> tokenToSME s (tokenId r) = p \<and>
            getTransactionByTokenId (tokenId r) s = Inr (True, r)"
    if "r \<in> set (auditTrails s p)" for p r
  proof -
    from wf that have f: "smeAddress r = p" "p \<noteq> 0" "tokenExists s (tokenId r)"
      "tokenToSME s (tokenId r) = p" "0 < length (tokenId r)" "length (tokenId r) \<le> 64"
      unfolding records_wf_def by blast+
    from dis have "distinct (map tokenId (auditTrails s p))" by (simp add: trails_distinct_def)
    from scanTrail_distinct [OF this that] f show ?thesis
      by (simp add: getTransactionByTokenId_eq)
  qed
  have uniq: "p = q \<and> r = r'"
    if "r \<in> set (auditTrails s p) \<and> r' \<in> set (auditTrails s q) \<and> tokenId r = tokenId r'"
    for p q r r'
  proof -
    from that have m: "r \<in> set (auditTrails s p)" and m': "r' \<in> set (auditTrails s q)"
      and eq: "tokenId r = tokenId r'" by blast+
    from rec [OF m] have a: "tokenToSME s (tokenId r) = p"
      and g: "getTransactionByTokenId (tokenId r) s = Inr (True, r)" by blast+
    from rec [OF m'] have a': "tokenToSME s (tokenId r') = q"
      and g': "getTransactionByTokenId (tokenId r') s = Inr (True, r')" by blast+
    from a a' have "p = q" unfolding eq by (rule trans [OF sym])
    moreover from g g' have "Inr (True, r) = (Inr (True, r') :: error + bool \<times> Transaction)"
      unfolding eq by (rule trans [OF sym])
    then have "r = r'" by (simp only: sum.inject prod.inject)
    ultimately show ?thesis by blast
  qed
  have absent: "getTransactionByTokenId t s = Inr (False, emptyTx)"
    if "0 < length t \<and> length t \<le> 64 \<and> (\<forall>p. t \<notin> tokenId ` set (auditTrails s p))" for t
  proof -
    from that ex [of t] have "\<not> tokenExists s t" by blast
    with that show ?thesis by (simp add: getTransactionByTokenId_eq)
  qed
  have none: "t \<notin> tokenId ` set (auditTrails s p)"
    if "length t = 0 \<or> 64 < length t" for t p
  proof
    assume "t \<in> tokenId ` set (auditTrails s p)"
    then obtain r where "r \<in> set (auditTrails s p)" and "tokenId r = t" by blast
    with wf have "0 < length t" and "length t \<le> 64" unfolding records_wf_def by blast+
    with that show False by simp
  qed
  have empty: "getTransactionByTokenId t s = Inl TokenIdEmpty \<and>
            (\<forall>p. t \<notin> tokenId ` set (auditTrails s p))"
    if "length t = 0" for t
    using that none [of t] by (auto simp: getTransactionByTokenId_eq)
  have toolong: "getTransactionByTokenId t s = Inl TokenIdTooLong \<and>
            (\<forall>p. t \<notin> tokenId ` set (auditTrails s p))"
    if "64 < length t" for t
    using that none [of t] by (auto simp: getTransactionByTokenId_eq)
  show ?thesis
  proof (intro conjI allI impI)
    fix t
    show "tokenExists s t \<longleftrightarrow> (\<exists>p. t \<in> tokenId ` set (auditTrails s p))" by (rule ex)
  next
    fix p r
    assume "r \<in> set (auditTrails s p)"
    from rec [OF this] show "smeAddress r = p" and "tokenToSME s (tokenId r) = p"
      and "getTransactionByTokenId (tokenId r) s = Inr (True, r)" by blast+
  next
    fix p q r r'
    assume "r \<in> set (auditTrails s p) \<and> r' \<in> set (auditTrails s q) \<and> tokenId r = tokenId r'"
    from uniq [OF this] show "p = q" and "r = r'" by blast+
  next
    fix t
    assume "0 < length t \<and> length t \<le> 64 \<and> (\<forall>p. t \<notin> tokenId ` set (auditTrails s p))"
    then show "getTransactionByTokenId t s = Inr (False, emptyTx)" by (rule absent)
  next
    fix t :: string
    assume "length t = 0"
    from empty [OF this] show "getTransactionByTokenId t s = Inl TokenIdEmpty" by blast
  next
    fix t :: string and p
    assume "length t = 0"
    from empty [OF this] show "t \<notin> tokenId ` set (auditTrails s p)" by blast
  next
    fix t :: string
    assume "64 < length t"
    from toolong [OF this] show "getTransactionByTokenId t s = Inl TokenIdTooLong" by blast
  next
    fix t :: string and p
    assume "64 < length t"
    from toolong [OF this] show "t \<notin> tokenId ` set (auditTrails s p)" by blast
  qed
qed

theorem reverse_index_consistent_witness:
  "tokenExists example_state ''T1'' \<and> tokenToSME example_state ''T1'' = 1 \<and>
   getTransactionByTokenId ''T1'' example_state =
     Inr (True, \<lparr>tokenId = ''T1'', smeAddress = 1, timestamp = 1000,
         transactionType = ''PAYMENT'', amount = 100, dataHash = 7, ipfsHash = ''ptr1'',
         isVerified = True\<rparr>) \<and>
   getTransactionByTokenId ''T2'' example_state = Inr (False, emptyTx) \<and>
   getTransactionByTokenId [] example_state = Inl TokenIdEmpty \<and>
   getTransactionByTokenId (replicate 65 CHR ''a'') example_state = Inl TokenIdTooLong"
proof -
  let ?r = "\<lparr>tokenId = ''T1'', smeAddress = 1, timestamp = 1000,
         transactionType = ''PAYMENT'', amount = 100, dataHash = 7, ipfsHash = ''ptr1'',
         isVerified = True\<rparr>"
  note th = reverse_index_consistent [OF example_state_reachable]
  have m: "?r \<in> set (auditTrails example_state 1)" by (simp add: example_state_eq)
  have a: "0 < length ''T2'' \<and> length ''T2'' \<le> 64 \<and>
      (\<forall>p. ''T2'' \<notin> tokenId ` set (auditTrails example_state p))"
    by (auto simp: example_state_eq)
  have e: "length ([] :: string) = 0" and l: "64 < length (replicate 65 CHR ''a'')"
    by simp_all
  from th [THEN conjunct2, THEN conjunct1, rule_format, OF m]
  have 1: "tokenToSME example_state ''T1'' = 1"
    and 2: "getTransactionByTokenId ''T1'' example_state = Inr (True, ?r)"
    by simp_all
  from th [THEN conjunct1, rule_format, of "''T1''"] m
  have 3: "tokenExists example_state ''T1''" by force
  from th [THEN conjunct2, THEN conjunct2, THEN conjunct2, THEN conjunct1, rule_format, OF a]
  have 4: "getTransactionByTokenId ''T2'' example_state = Inr (False, emptyTx)" .
  from th [THEN conjunct2, THEN conjunct2, THEN conjunct2, THEN conjunct2, THEN conjunct1,
      rule_format, OF e]
  have 5: "getTransactionByTokenId [] example_state = Inl TokenIdEmpty" by (rule conjunct1)
  from th [THEN conjunct2, THEN conjunct2, THEN conjunct2, THEN conjunct2, THEN conjunct2,
      rule_format, OF l]
  have 6: "getTransactionByTokenId (replicate 65 CHR ''a'') example_state = Inl TokenIdTooLong"
    by (rule conjunct1)
  from 1 2 3 4 5 6 show ?thesis by (intro conjI)
qed

section \<open>Input errors of the read operations\<close>

text \<open>
  Claim C10. The read operations reject malformed input instead of answering:
  \<open>verifyToken\<close> and \<open>verifyDataIntegrity\<close> revert for a token id that is empty or longer
  than 64 bytes and for the zero principal address (they do not return \<open>(False, emptyTx)\<close>
  or \<open>False\<close>), and \<open>verifyDataIntegrity\<close> also reverts when the expected hash is the zero
  hash. The reason reported is that of the first failing check: the token id, then the
  address, then the expected hash.
\<close>

theorem read_operations_revert_on_malformed_input:
  "(length tid = 0 \<longrightarrow>
      verifyToken tid sme s = Inl TokenIdEmpty \<and>
      verifyDataIntegrity tid sme h s = Inl TokenIdEmpty) \<and>
   (64 < length tid \<longrightarrow>
      verifyToken tid sme s = Inl TokenIdTooLong \<and>
      verifyDataIntegrity tid sme h s = Inl TokenIdTooLong) \<and>
   (0 < length tid \<and> length tid \<le> 64 \<and> sme = 0 \<longrightarrow>
      verifyToken tid sme s = Inl InvalidSMEAddress \<and>
      verifyDataIntegrity tid sme h s = Inl InvalidSMEAddress) \<and>
   (0 < length tid \<and> length tid \<le> 64 \<and> sme \<noteq> 0 \<and> h = 0 \<longrightarrow>
      verifyDataIntegrity tid sme h s = Inl InvalidExpectedHash) \<and>
   (length tid = 0 \<or> 64 < length tid \<or> sme = 0 \<longrightarrow>
      isl (verifyToken tid sme s) \<and> isl (verifyDataIntegrity tid sme h s)) \<and>
   (h = 0 \<longrightarrow> isl (verifyDataIntegrity tid sme h s))"
  by (simp add: verifyToken_eq verifyDataIntegrity_eq)

theorem read_operations_revert_on_malformed_input_witness:
  "verifyToken [] 1 (constructor 1) = Inl TokenIdEmpty \<and>
   verifyDataIntegrity (replicate 65 CHR ''a'') 1 5 (constructor 1) = Inl TokenIdTooLong \<and>
   verifyToken ''T1'' 0 (constructor 1) = Inl InvalidSMEAddress \<and>
   verifyDataIntegrity ''T1'' 1 0 (constructor 1) = Inl InvalidExpectedHash"
  using read_operations_revert_on_malformed_input [of "[]" 1 "constructor 1" 5]
    read_operations_revert_on_malformed_input
      [of "replicate 65 CHR ''a''" 1 "constructor 1" 5]
    read_operations_revert_on_malformed_input [of "''T1''" 0 "constructor 1" 5]
    read_operations_revert_on_malformed_input [of "''T1''" 1 "constructor 1" 0]
  by simp

end
